theory Spec2Isabelle
  imports Main "HOL-Library.Sublist"
begin

section \<open>Text\<close>

text \<open>
  The program is \<^verbatim>\<open>remove-json-comments.py\<close>. It works on Python \<^verbatim>\<open>str\<close> values: the
  input path, the text of the input file and the text it writes. A text is modelled
  as a \<^typ>\<open>string\<close>, one \<^typ>\<open>char\<close> per character; the model covers the characters
  with code points below 256.
\<close>

subsection \<open>\<^verbatim>\<open>input_path.rsplit('.', 1)[0] + '.json'\<close>\<close>

text \<open>
  \<^verbatim>\<open>s.rsplit(sep, 1)\<close> splits \<open>s\<close> once, at the last occurrence of the separator
  character: the result is \<^verbatim>\<open>[s]\<close> when \<open>sep\<close> does not occur and
  \<^verbatim>\<open>[s[:i], s[i+1:]]\<close> when \<open>i\<close> is the index of the last occurrence.
  The scan runs from the right end: \<open>after\<close> is the text behind the last separator.
\<close>

definition rsplit1 :: "char \<Rightarrow> string \<Rightarrow> string list" where
  "rsplit1 sep s =
     (let after = rev (takeWhile (\<lambda>c. c \<noteq> sep) (rev s))
      in if length after = length s then [s]
         else [take (length s - length after - 1) s, after])"

text \<open>Line 7 of the source. The list \<open>rsplit\<close> returns is never empty, so \<^verbatim>\<open>[0]\<close> is its head.\<close>

definition output_path :: "string \<Rightarrow> string" where
  "output_path input_path = hd (rsplit1 (CHR ''.'') input_path) @ ''.json''"

subsection \<open>Step 1: \<^verbatim>\<open>re.sub(r'/\*.*?\*/', '', content, flags=re.DOTALL)\<close>\<close>

text \<open>
  \<^verbatim>\<open>re.sub\<close> scans the text from the left. Where the pattern matches at the current
  position the match is replaced and the scan goes on behind it; where it does not, the
  character is kept and the scan moves one character on.

  The pattern matches at a position that holds \<^verbatim>\<open>/*\<close>, if a \<^verbatim>\<open>*/\<close> begins
  anywhere behind these two characters; \<^verbatim>\<open>.*?\<close> is lazy and, with \<^verbatim>\<open>DOTALL\<close>,
  matches newlines as well, so the match ends with the first such \<^verbatim>\<open>*/\<close>.
  \<open>find_block_end r\<close> is the text behind the first \<^verbatim>\<open>*/\<close> of \<open>r\<close>.
\<close>

fun find_block_end :: "string \<Rightarrow> string option" where
  "find_block_end (a # b # r) =
     (if a = CHR ''*'' \<and> b = CHR ''/'' then Some r else find_block_end (b # r))"
| "find_block_end _ = None"

lemma find_block_end_length: "find_block_end r = Some rest \<Longrightarrow> length rest < length r"
  by (induction r arbitrary: rest rule: find_block_end.induct) (auto split: if_splits)

function remove_block_comments :: "string \<Rightarrow> string" where
  "remove_block_comments [] = []"
| "remove_block_comments [a] = [a]"
| "remove_block_comments (a # b # r) =
     (if a = CHR ''/'' \<and> b = CHR ''*'' then
        (case find_block_end r of
           Some rest \<Rightarrow> remove_block_comments rest
         | None \<Rightarrow> a # remove_block_comments (b # r))
      else a # remove_block_comments (b # r))"
  by pat_completeness auto
termination
  by (relation "measure length") (auto dest: find_block_end_length)

subsection \<open>Step 2: \<^verbatim>\<open>re.sub(r'//.*', '', content)\<close>\<close>

text \<open>
  Without \<^verbatim>\<open>DOTALL\<close> the dot matches every character but the newline, and \<^verbatim>\<open>.*\<close>
  is greedy: a match begins at \<^verbatim>\<open>//\<close> and takes all characters up to the next newline
  or the end of the text. The newline itself is kept.
\<close>

definition newline :: char where
  "newline = CHR 0x0A"

function remove_line_comments :: "string \<Rightarrow> string" where
  "remove_line_comments [] = []"
| "remove_line_comments [a] = [a]"
| "remove_line_comments (a # b # r) =
     (if a = CHR ''/'' \<and> b = CHR ''/'' then
        remove_line_comments (dropWhile (\<lambda>c. c \<noteq> newline) r)
      else a # remove_line_comments (b # r))"
  by pat_completeness auto
termination
  by (relation "measure length") (auto simp: less_Suc_eq_le le_SucI length_dropWhile_le)

subsection \<open>Step 3: \<^verbatim>\<open>re.sub(r',\s*([\]}])', r'\1', content)\<close>\<close>

text \<open>
  For a \<^verbatim>\<open>str\<close> pattern \<^verbatim>\<open>\s\<close> is Unicode white space. Below 256 these are the
  code points 9 to 13, 28 to 32, 133 and 160.
\<close>

definition is_space :: "char \<Rightarrow> bool" where
  "is_space c =
     (let n = (of_char c :: nat)
      in (9 \<le> n \<and> n \<le> 13) \<or> (28 \<le> n \<and> n \<le> 32) \<or> n = 133 \<or> n = 160)"

definition is_closer :: "char \<Rightarrow> bool" where
  "is_closer c = (c = CHR '']'' \<or> c = CHR ''}'')"

text \<open>
  A match begins at a comma; \<^verbatim>\<open>\s*\<close> takes all white space behind it, and the next
  character has to be \<^verbatim>\<open>]\<close> or \<^verbatim>\<open>}\<close>. Giving white space back cannot help, since
  a closer is not white space. The match is replaced by group 1, the closer.
\<close>

lemma dropWhile_Cons_length: "dropWhile P r = c # rest \<Longrightarrow> length rest < length r"
  using length_dropWhile_le [of P r] by simp

function remove_trailing_commas :: "string \<Rightarrow> string" where
  "remove_trailing_commas [] = []"
| "remove_trailing_commas (a # r) =
     (if a = CHR '','' then
        (case dropWhile is_space r of
           c # rest \<Rightarrow>
             if is_closer c then c # remove_trailing_commas rest
             else a # remove_trailing_commas r
         | [] \<Rightarrow> a # remove_trailing_commas r)
      else a # remove_trailing_commas r)"
  by pat_completeness auto
termination
  by (relation "measure length") (auto dest: dropWhile_Cons_length)

text \<open>
  Where the pattern of step 3 finds a match: \<open>trailing_comma_at s\<close> says that it
  matches at the head of \<open>s\<close>, \<open>has_trailing_comma s\<close> that it matches somewhere in
  \<open>s\<close>. \<open>has_double_comma s\<close> says that somewhere in \<open>s\<close> two commas have only
  white space between them, and \<open>has_stacked_comma s\<close> that the second of two such
  commas is one at which the pattern matches.
\<close>

definition trailing_comma_at :: "string \<Rightarrow> bool" where
  "trailing_comma_at s =
     (case s of
        [] \<Rightarrow> False
      | a # r \<Rightarrow>
          a = CHR '','' \<and> (case dropWhile is_space r of [] \<Rightarrow> False | c # _ \<Rightarrow> is_closer c))"

fun has_trailing_comma :: "string \<Rightarrow> bool" where
  "has_trailing_comma [] = False"
| "has_trailing_comma (a # r) = (trailing_comma_at (a # r) \<or> has_trailing_comma r)"

definition double_comma_at :: "string \<Rightarrow> bool" where
  "double_comma_at s =
     (case s of
        [] \<Rightarrow> False
      | a # r \<Rightarrow>
          a = CHR '','' \<and> (case dropWhile is_space r of [] \<Rightarrow> False | c # _ \<Rightarrow> c = CHR '',''))"

fun has_double_comma :: "string \<Rightarrow> bool" where
  "has_double_comma [] = False"
| "has_double_comma (a # r) = (double_comma_at (a # r) \<or> has_double_comma r)"

definition stacked_comma_at :: "string \<Rightarrow> bool" where
  "stacked_comma_at s =
     (case s of
        [] \<Rightarrow> False
      | a # r \<Rightarrow> a = CHR '','' \<and> trailing_comma_at (dropWhile is_space r))"

fun has_stacked_comma :: "string \<Rightarrow> bool" where
  "has_stacked_comma [] = False"
| "has_stacked_comma (a # r) = (stacked_comma_at (a # r) \<or> has_stacked_comma r)"

text \<open>Lines 13 to 19 of the source: the three substitutions, in this order.\<close>

definition clean :: "string \<Rightarrow> string" where
  "clean content = remove_trailing_commas (remove_line_comments (remove_block_comments content))"

section \<open>The program\<close>

subsection \<open>Files, standard output and exceptions\<close>

text \<open>
  The file system maps a path to the text of the file there, as \<^verbatim>\<open>open(path).read()\<close>
  returns it; a path without a file maps to \<open>None\<close>. Two different paths are two
  different files: links and file systems that ignore case are outside the model.
  \<open>stdout\<close> holds the lines printed so far.
\<close>

record world =
  files :: "string \<rightharpoonup> string"
  stdout :: "string list"

definition py_print :: "string \<Rightarrow> world \<Rightarrow> world" where
  "py_print line w = w\<lparr>stdout := stdout w @ [line]\<rparr>"

text \<open>
  \<^verbatim>\<open>json.loads\<close> and \<^verbatim>\<open>json.dump\<close> belong to Python's standard library, so the program
  is modelled for any pair of them. \<^verbatim>\<open>json.loads\<close> returns a value or raises
  \<^verbatim>\<open>JSONDecodeError\<close>, whose \<^verbatim>\<open>str\<close> is the diagnostic; it can also raise something
  else (\<^verbatim>\<open>RecursionError\<close> on input nested too deeply), which the program does not
  catch.

  \<^verbatim>\<open>json.dump(data, f, indent=indent)\<close> writes its text to \<open>f\<close> piece by piece. It
  ends with the whole text written, or it raises on the way (\<^verbatim>\<open>RecursionError\<close> on a
  value nested too deeply, \<^verbatim>\<open>ValueError\<close> on an integer too long to print) with a
  part of the text written: \<open>DumpRaised x part\<close> is that end, with the exception
  \<open>x\<close> and the text \<open>part\<close> that reached the file.
\<close>

datatype 'v loads_result = Parsed 'v | JSONDecodeError string | Raised string

datatype dump_result = Written string | DumpRaised string string

text \<open>
  How a call ends other than by returning: \<^verbatim>\<open>open\<close> raises
  \<^verbatim>\<open>FileNotFoundError\<close> for the path, \<^verbatim>\<open>sys.exit(n)\<close> raises \<^verbatim>\<open>SystemExit\<close>, and
  any other exception is named by its text.
\<close>

datatype exn = FileNotFoundError string | SystemExit nat | Uncaught string

subsection \<open>\<^verbatim>\<open>convert_jsonc_to_json\<close>\<close>

text \<open>
  Lines 6 to 31 of the source. The result is \<open>None\<close> when the function returns, and the
  exception that leaves it otherwise, with the world as the call left it.

  Line 25 opens the output file for writing, which empties it (\<open>w1\<close>); opening it is
  taken to succeed. Line 26 then writes: when \<^verbatim>\<open>json.dump\<close> raises, the file keeps the
  part written so far and the exception leaves the function, since line 29 catches
  \<^verbatim>\<open>JSONDecodeError\<close> only.
\<close>

definition convert_jsonc_to_json ::
  "(string \<Rightarrow> 'v loads_result) \<Rightarrow> (nat \<Rightarrow> 'v \<Rightarrow> dump_result) \<Rightarrow> string \<Rightarrow> world \<Rightarrow> exn option \<times> world" where
  "convert_jsonc_to_json loads dump input_path w =
     (let out = output_path input_path
      in case files w input_path of
           None \<Rightarrow> (Some (FileNotFoundError input_path), w)
         | Some content \<Rightarrow>
             (let content1 = remove_block_comments content;
                  content2 = remove_line_comments content1;
                  content3 = remove_trailing_commas content2
              in case loads content3 of
                   Parsed data \<Rightarrow>
                     (let w1 = w\<lparr>files := (files w)(out \<mapsto> [])\<rparr>
                      in case dump 4 data of
                           Written text \<Rightarrow>
                             (None,
                              py_print (''Successfully created: '' @ out)
                                (w1\<lparr>files := (files w1)(out \<mapsto> text)\<rparr>))
                         | DumpRaised x part \<Rightarrow>
                             (Some (Uncaught x), w1\<lparr>files := (files w1)(out \<mapsto> part)\<rparr>))
                 | JSONDecodeError e \<Rightarrow>
                     (Some (SystemExit 1),
                      py_print (''Error parsing JSON after cleaning: '' @ e) w)
                 | Raised x \<Rightarrow> (Some (Uncaught x), w)))"

subsection \<open>The script\<close>

text \<open>
  Lines 33 to 37. \<open>argv\<close> is \<^verbatim>\<open>sys.argv\<close>, the script's name first. The result is the
  exit status of the process: 0 when the script runs to its end, the argument of
  \<^verbatim>\<open>sys.exit\<close>, and 1 for an exception nobody catches.
\<close>

definition usage :: string where
  "usage = ''Usage: python jsonc_to_json.py <filename.jsonc>''"

definition main ::
  "(string \<Rightarrow> 'v loads_result) \<Rightarrow> (nat \<Rightarrow> 'v \<Rightarrow> dump_result) \<Rightarrow> string list \<Rightarrow> world \<Rightarrow> nat \<times> world" where
  "main loads dump argv w =
     (if length argv < 2 then (0, py_print usage w)
      else
        (case convert_jsonc_to_json loads dump (argv ! 1) w of
           (None, w') \<Rightarrow> (0, w')
         | (Some (SystemExit n), w') \<Rightarrow> (n, w')
         | (Some _, w') \<Rightarrow> (1, w')))"

section \<open>A model of Python's \<^verbatim>\<open>json\<close> module\<close>

text \<open>
  The program is modelled for any \<open>loads\<close> and \<open>dump\<close>. To run it on concrete files,
  this section models \<^verbatim>\<open>json.loads\<close> and \<^verbatim>\<open>json.dump\<close> of CPython 3.12 on a part of
  what they accept: objects, arrays, strings (with the two-character escapes and
  \<^verbatim>\<open>\u00XX\<close>), integers of at most 4300 digits, \<^verbatim>\<open>true\<close>, \<^verbatim>\<open>false\<close>, \<^verbatim>\<open>null\<close> and the
  constants \<^verbatim>\<open>NaN\<close>, \<^verbatim>\<open>Infinity\<close> and \<^verbatim>\<open>-Infinity\<close>, nested at most \<open>nesting_limit\<close>
  deep. Other floats, other \<^verbatim>\<open>\u\<close> escapes, longer integers and deeper nesting (where
  CPython's answer depends on the interpreter's recursion limit) are outside this part:
  the decoder answers \<open>Unmodelled\<close> for them, and \<open>json_loads\<close> and \<open>json_dump\<close> are
  left unspecified there.
\<close>

subsection \<open>Values\<close>

text \<open>
  A \<^verbatim>\<open>dict\<close> is the list of its items in insertion order, with no key twice.
  \<open>JNaN\<close>, \<open>JInfinity\<close> and \<open>JNegInfinity\<close> are the floats \<^verbatim>\<open>nan\<close>, \<^verbatim>\<open>inf\<close> and
  \<^verbatim>\<open>-inf\<close>, which \<^verbatim>\<open>json.loads\<close> returns for the three constants although JSON has
  none of them.
\<close>

datatype json =
  JNull | JBool bool | JInt int | JNaN | JInfinity | JNegInfinity
  | JStr string | JList "json list" | JDict "(string \<times> json) list"


text \<open>\<^verbatim>\<open>str\<close> of a natural number and of an integer.\<close>

fun str_nat :: "nat \<Rightarrow> string" where
  "str_nat n =
     (if n < 10 then [char_of (48 + n)]
      else str_nat (n div 10) @ [char_of (48 + n mod 10)])"

definition str_int :: "int \<Rightarrow> string" where
  "str_int i = (if i < 0 then CHR ''-'' # str_nat (nat (- i)) else str_nat (nat i))"

text \<open>
  The values of the modelled part, with \<open>d\<close> levels of nesting allowed: no integer has
  more than 4300 digits, no \<^verbatim>\<open>dict\<close> holds a key twice, and arrays and objects are
  nested at most \<open>d\<close> deep.
\<close>

definition nesting_limit :: nat where
  "nesting_limit = 100"

fun json_ok :: "nat \<Rightarrow> json \<Rightarrow> bool" where
  "json_ok d (JInt i) = (length (str_nat (nat \<bar>i\<bar>)) \<le> 4300)"
| "json_ok d (JList vs) = (0 < d \<and> list_all (json_ok (d - 1)) vs)"
| "json_ok d (JDict kvs) =
     (0 < d \<and> distinct (map fst kvs) \<and> list_all (\<lambda>kv. json_ok (d - 1) (snd kv)) kvs)"
| "json_ok d _ = True"

subsection \<open>Decoding\<close>

text \<open>
  The decoder reads a suffix of the document and returns the value with the text behind
  it. \<open>Failed msg k\<close> is \<^verbatim>\<open>JSONDecodeError(msg, doc, pos)\<close> where \<open>k\<close> characters of the
  document follow position \<open>pos\<close>.
\<close>

datatype 'a scan = Scanned 'a string | Failed string nat | Unmodelled

definition dquote :: char where "dquote = CHR 0x22"
definition bslash :: char where "bslash = CHR 0x5C"

definition json_ws :: "char \<Rightarrow> bool" where
  "json_ws c = (c = CHR '' '' \<or> c = CHR 0x09 \<or> c = CHR 0x0A \<or> c = CHR 0x0D)"

definition skip_ws :: "string \<Rightarrow> string" where
  "skip_ws s = dropWhile json_ws s"

text \<open>
  \<^verbatim>\<open>scanstring\<close>, called behind the opening quote. \<open>begin\<close> locates the opening quote.
  A control character in a string is an error (\<^verbatim>\<open>strict=True\<close>); the error for an unknown
  escape is located at the backslash. Of the \<^verbatim>\<open>\u\<close> escapes those with four hexadecimal
  digits and a code point below 256 are read.
\<close>

definition backslash :: "char \<Rightarrow> char option" where
  "backslash e =
     (if e = dquote then Some dquote
      else if e = bslash then Some bslash
      else if e = CHR ''/'' then Some (CHR ''/'')
      else if e = CHR ''b'' then Some (CHR 0x08)
      else if e = CHR ''f'' then Some (CHR 0x0C)
      else if e = CHR ''n'' then Some (CHR 0x0A)
      else if e = CHR ''r'' then Some (CHR 0x0D)
      else if e = CHR ''t'' then Some (CHR 0x09)
      else None)"

definition hex_value :: "char \<Rightarrow> nat option" where
  "hex_value h =
     (let n = (of_char h :: nat)
      in if 48 \<le> n \<and> n \<le> 57 then Some (n - 48)
         else if 97 \<le> n \<and> n \<le> 102 then Some (n - 87)
         else if 65 \<le> n \<and> n \<le> 70 then Some (n - 55)
         else None)"

fun scanstring :: "nat \<Rightarrow> string \<Rightarrow> string scan" where
  "scanstring begin [] = Failed ''Unterminated string starting at'' begin"
| "scanstring begin (c # r) =
     (if c = dquote then Scanned [] r
      else if c = bslash then
        (case r of
           [] \<Rightarrow> Failed ''Unterminated string starting at'' begin
         | e # r' \<Rightarrow>
             if e = CHR ''u'' then
               (case r' of
                  h1 # h2 # h3 # h4 # r'' \<Rightarrow>
                    (case (hex_value h1, hex_value h2, hex_value h3, hex_value h4) of
                       (Some x1, Some x2, Some x3, Some x4) \<Rightarrow>
                         if x1 = 0 \<and> x2 = 0 then
                           (case scanstring begin r'' of
                              Scanned t rest \<Rightarrow> Scanned (char_of (x3 * 16 + x4) # t) rest
                            | Failed m k \<Rightarrow> Failed m k
                            | Unmodelled \<Rightarrow> Unmodelled)
                         else Unmodelled
                     | _ \<Rightarrow> Unmodelled)
                | _ \<Rightarrow> Unmodelled)
             else
               (case backslash e of
                  None \<Rightarrow> Failed (''Invalid '' @ [bslash] @ ''escape'') (length (c # r))
                | Some ch \<Rightarrow>
                    (case scanstring begin r' of
                       Scanned t rest \<Rightarrow> Scanned (ch # t) rest
                     | Failed m k \<Rightarrow> Failed m k
                     | Unmodelled \<Rightarrow> Unmodelled)))
      else if (of_char c :: nat) < 0x20 then
        Failed ''Invalid control character at'' (length (c # r))
      else
        (case scanstring begin r of
           Scanned t rest \<Rightarrow> Scanned (c # t) rest
         | Failed m k \<Rightarrow> Failed m k
         | Unmodelled \<Rightarrow> Unmodelled))"

text \<open>
  Numbers: an optional minus sign, then \<^verbatim>\<open>0\<close> or a digit from 1 to 9 with any digits
  behind it. A fraction (a dot and a digit) or an exponent (\<^verbatim>\<open>e\<close>, an optional sign and
  a digit) behind the integer part makes the number a float.
\<close>

definition is_digit :: "char \<Rightarrow> bool" where
  "is_digit c = (48 \<le> (of_char c :: nat) \<and> (of_char c :: nat) \<le> 57)"

definition digit_value :: "char \<Rightarrow> nat" where
  "digit_value c = of_char c - 48"

definition int_of_digits :: "string \<Rightarrow> nat" where
  "int_of_digits ds = foldl (\<lambda>n d. 10 * n + digit_value d) 0 ds"

definition is_float_tail :: "string \<Rightarrow> bool" where
  "is_float_tail r =
     (case r of
        [] \<Rightarrow> False
      | c # r1 \<Rightarrow>
          if c = CHR ''.'' then (case r1 of [] \<Rightarrow> False | d # _ \<Rightarrow> is_digit d)
          else if c = CHR ''e'' \<or> c = CHR ''E'' then
            (case r1 of
               [] \<Rightarrow> False
             | d # r2 \<Rightarrow>
                 if d = CHR ''-'' \<or> d = CHR ''+'' then
                   (case r2 of [] \<Rightarrow> False | d' # _ \<Rightarrow> is_digit d')
                 else is_digit d)
          else False)"

definition match_number :: "string \<Rightarrow> json scan" where
  "match_number s =
     (let neg = (case s of [] \<Rightarrow> False | c # _ \<Rightarrow> c = CHR ''-'');
          r0 = (if neg then tl s else s)
      in case r0 of
           [] \<Rightarrow> Failed ''Expecting value'' (length s)
         | d # r1 \<Rightarrow>
             if \<not> is_digit d then Failed ''Expecting value'' (length s)
             else
               (let ds = (if d = CHR ''0'' then [d] else d # takeWhile is_digit r1);
                    rest = (if d = CHR ''0'' then r1 else dropWhile is_digit r1)
                in if is_float_tail rest \<or> length ds > 4300 then Unmodelled
                   else Scanned (JInt (if neg then - int (int_of_digits ds) else int (int_of_digits ds))) rest))"

text \<open>\<^verbatim>\<open>d[k] = v\<close>: a key that is present keeps its place and takes the new value.\<close>

fun dict_set :: "(string \<times> 'a) list \<Rightarrow> string \<Rightarrow> 'a \<Rightarrow> (string \<times> 'a) list" where
  "dict_set [] k v = [(k, v)]"
| "dict_set ((k', v') # d) k v = (if k' = k then (k', v) # d else (k', v') # dict_set d k v)"

definition dict_of_pairs :: "(string \<times> 'a) list \<Rightarrow> (string \<times> 'a) list" where
  "dict_of_pairs pairs = foldl (\<lambda>d (k, v). dict_set d k v) [] pairs"

text \<open>
  \<^verbatim>\<open>scan_once\<close> with the loops of \<^verbatim>\<open>_parse_array\<close> and \<^verbatim>\<open>_parse_object\<close>; both loops
  start at an item, white space skipped. The first argument bounds the number of calls;
  each call is preceded by reading a character, so \<open>json_decode\<close> starts with more
  than the document can use. The second argument \<open>d\<close> is the number of levels of
  nesting still allowed. Should either run out, the answer is \<open>Unmodelled\<close>.
\<close>

fun scan_once :: "nat \<Rightarrow> nat \<Rightarrow> string \<Rightarrow> json scan"
  and parse_array :: "nat \<Rightarrow> nat \<Rightarrow> string \<Rightarrow> json list scan"
  and parse_object :: "nat \<Rightarrow> nat \<Rightarrow> string \<Rightarrow> (string \<times> json) list scan"
where
  "scan_once 0 d s = Unmodelled"
| "scan_once (Suc n) d [] = Failed ''Expecting value'' 0"
| "scan_once (Suc n) d (c # r) =
     (if c = dquote then
        (case scanstring (length (c # r)) r of
           Scanned t rest \<Rightarrow> Scanned (JStr t) rest
         | Failed m k \<Rightarrow> Failed m k
         | Unmodelled \<Rightarrow> Unmodelled)
      else if c = CHR ''{'' then
        (if d = 0 then Unmodelled
         else
           (case skip_ws r of
              [] \<Rightarrow> Failed ''Expecting property name enclosed in double quotes'' 0
            | x # r1 \<Rightarrow>
                if x = CHR ''}'' then Scanned (JDict []) r1
                else
                  (case parse_object n (d - 1) (x # r1) of
                     Scanned pairs rest \<Rightarrow> Scanned (JDict (dict_of_pairs pairs)) rest
                   | Failed m k \<Rightarrow> Failed m k
                   | Unmodelled \<Rightarrow> Unmodelled)))
      else if c = CHR ''['' then
        (if d = 0 then Unmodelled
         else
           (case skip_ws r of
              [] \<Rightarrow> Failed ''Expecting value'' 0
            | x # r1 \<Rightarrow>
                if x = CHR '']'' then Scanned (JList []) r1
                else
                  (case parse_array n (d - 1) (x # r1) of
                     Scanned vs rest \<Rightarrow> Scanned (JList vs) rest
                   | Failed m k \<Rightarrow> Failed m k
                   | Unmodelled \<Rightarrow> Unmodelled)))
      else if take 4 (c # r) = ''null'' then Scanned JNull (drop 4 (c # r))
      else if take 4 (c # r) = ''true'' then Scanned (JBool True) (drop 4 (c # r))
      else if take 5 (c # r) = ''false'' then Scanned (JBool False) (drop 5 (c # r))
      else if take 3 (c # r) = ''NaN'' then Scanned JNaN (drop 3 (c # r))
      else if take 8 (c # r) = ''Infinity'' then Scanned JInfinity (drop 8 (c # r))
      else if take 9 (c # r) = ''-Infinity'' then Scanned JNegInfinity (drop 9 (c # r))
      else match_number (c # r))"
| "parse_array 0 d s = Unmodelled"
| "parse_array (Suc n) d s =
     (case scan_once n d s of
        Scanned v rest \<Rightarrow>
          (case skip_ws rest of
             [] \<Rightarrow> Failed ''Expecting ',' delimiter'' 0
           | x # r1 \<Rightarrow>
               if x = CHR '']'' then Scanned [v] r1
               else if x = CHR '','' then
                 (case parse_array n d (skip_ws r1) of
                    Scanned vs rest' \<Rightarrow> Scanned (v # vs) rest'
                  | Failed m k \<Rightarrow> Failed m k
                  | Unmodelled \<Rightarrow> Unmodelled)
               else Failed ''Expecting ',' delimiter'' (length (x # r1)))
      | Failed m k \<Rightarrow> Failed m k
      | Unmodelled \<Rightarrow> Unmodelled)"
| "parse_object 0 d s = Unmodelled"
| "parse_object (Suc n) d s =
     (case s of
        [] \<Rightarrow> Failed ''Expecting property name enclosed in double quotes'' 0
      | q # r \<Rightarrow>
          if q \<noteq> dquote then
            Failed ''Expecting property name enclosed in double quotes'' (length s)
          else
            (case scanstring (length s) r of
               Scanned key rest \<Rightarrow>
                 (case skip_ws rest of
                    [] \<Rightarrow> Failed ''Expecting ':' delimiter'' 0
                  | c # r1 \<Rightarrow>
                      if c \<noteq> CHR '':'' then Failed ''Expecting ':' delimiter'' (length (c # r1))
                      else
                        (case scan_once n d (skip_ws r1) of
                           Scanned v rest2 \<Rightarrow>
                             (case skip_ws rest2 of
                                [] \<Rightarrow> Failed ''Expecting ',' delimiter'' 0
                              | x # r3 \<Rightarrow>
                                  if x = CHR ''}'' then Scanned [(key, v)] r3
                                  else if x = CHR '','' then
                                    (case parse_object n d (skip_ws r3) of
                                       Scanned ps rest' \<Rightarrow> Scanned ((key, v) # ps) rest'
                                     | Failed m k \<Rightarrow> Failed m k
                                     | Unmodelled \<Rightarrow> Unmodelled)
                                  else Failed ''Expecting ',' delimiter'' (length (x # r3)))
                         | Failed m k \<Rightarrow> Failed m k
                         | Unmodelled \<Rightarrow> Unmodelled))
             | Failed m k \<Rightarrow> Failed m k
             | Unmodelled \<Rightarrow> Unmodelled))"

text \<open>\<^verbatim>\<open>JSONDecoder.decode\<close>: white space, one value, white space, the end.\<close>

definition json_decode :: "string \<Rightarrow> json scan" where
  "json_decode s =
     (case scan_once (2 * length s + 2) nesting_limit (skip_ws s) of
        Scanned v rest \<Rightarrow>
          (case skip_ws rest of
             [] \<Rightarrow> Scanned v []
           | c # r \<Rightarrow> Failed ''Extra data'' (length (c # r)))
      | Failed m k \<Rightarrow> Failed m k
      | Unmodelled \<Rightarrow> Unmodelled)"

subsection \<open>The diagnostic\<close>

text \<open>
  \<^verbatim>\<open>str(e)\<close> for a \<^verbatim>\<open>JSONDecodeError\<close> is
  \<^verbatim>\<open>'%s: line %d column %d (char %d)' % (msg, lineno, colno, pos)\<close>.
\<close>

definition errmsg :: "string \<Rightarrow> string \<Rightarrow> nat \<Rightarrow> string" where
  "errmsg msg doc pos =
     (let pre = take pos doc;
          lineno = count_list pre newline + 1;
          colno = length (takeWhile (\<lambda>c. c \<noteq> newline) (rev pre)) + 1
      in msg @ '': line '' @ str_nat lineno @ '' column '' @ str_nat colno
           @ '' (char '' @ str_nat pos @ '')'')"

text \<open>
  \<^verbatim>\<open>json.loads\<close> on the modelled part. The position of an error is counted from the start
  of the document.
\<close>

definition json_loads :: "string \<Rightarrow> json loads_result" where
  "json_loads s =
     (case json_decode s of
        Scanned v rest \<Rightarrow> Parsed v
      | Failed msg k \<Rightarrow> JSONDecodeError (errmsg msg s (length s - k))
      | Unmodelled \<Rightarrow> undefined)"

subsection \<open>Encoding\<close>

text \<open>
  \<^verbatim>\<open>json.dump\<close> with \<^verbatim>\<open>ensure_ascii=True\<close>: in a string every character outside the
  range from space to \<^verbatim>\<open>~\<close> is escaped, as are the quote and the backslash. With an
  indent every item of a non-empty array or object stands on a line of its own; the
  separators are \<^verbatim>\<open>','\<close> and \<^verbatim>\<open>': '\<close>. The three float constants are written by name
  (\<^verbatim>\<open>allow_nan=True\<close>).
\<close>

definition hex_digit :: "nat \<Rightarrow> char" where
  "hex_digit n = (if n < 10 then char_of (48 + n) else char_of (87 + n))"

definition encode_char :: "char \<Rightarrow> string" where
  "encode_char c =
     (let n = (of_char c :: nat)
      in if c = dquote then [bslash, dquote]
         else if c = bslash then [bslash, bslash]
         else if c = CHR 0x0A then [bslash, CHR ''n'']
         else if c = CHR 0x0D then [bslash, CHR ''r'']
         else if c = CHR 0x09 then [bslash, CHR ''t'']
         else if c = CHR 0x08 then [bslash, CHR ''b'']
         else if c = CHR 0x0C then [bslash, CHR ''f'']
         else if n < 32 \<or> 126 < n then
           [bslash, CHR ''u'', CHR ''0'', CHR ''0'', hex_digit (n div 16), hex_digit (n mod 16)]
         else [c])"

definition encode_basestring_ascii :: "string \<Rightarrow> string" where
  "encode_basestring_ascii s = dquote # concat (map encode_char s) @ [dquote]"

definition newline_indent :: "nat \<Rightarrow> nat \<Rightarrow> string" where
  "newline_indent indent level = newline # replicate (indent * level) (CHR '' '')"

fun join :: "string \<Rightarrow> string list \<Rightarrow> string" where
  "join sep [] = []"
| "join sep [x] = x"
| "join sep (x # y # ys) = x @ sep @ join sep (y # ys)"

fun iterencode :: "nat \<Rightarrow> nat \<Rightarrow> json \<Rightarrow> string" where
  "iterencode indent level JNull = ''null''"
| "iterencode indent level (JBool b) = (if b then ''true'' else ''false'')"
| "iterencode indent level (JInt i) = str_int i"
| "iterencode indent level JNaN = ''NaN''"
| "iterencode indent level JInfinity = ''Infinity''"
| "iterencode indent level JNegInfinity = ''-Infinity''"
| "iterencode indent level (JStr s) = encode_basestring_ascii s"
| "iterencode indent level (JList vs) =
     (if vs = [] then ''[]''
      else ''['' @ newline_indent indent (level + 1)
           @ join ('','' @ newline_indent indent (level + 1))
               (map (iterencode indent (level + 1)) vs)
           @ newline_indent indent level @ '']'')"
| "iterencode indent level (JDict d) =
     (if d = [] then ''{}''
      else ''{'' @ newline_indent indent (level + 1)
           @ join ('','' @ newline_indent indent (level + 1))
               (map (\<lambda>(k, v). encode_basestring_ascii k @ '': '' @ iterencode indent (level + 1) v) d)
           @ newline_indent indent level @ ''}'')"

definition json_dumps :: "nat \<Rightarrow> json \<Rightarrow> string" where
  "json_dumps indent data = iterencode indent 0 data"

text \<open>\<^verbatim>\<open>json.dump\<close> on the values of the modelled part: the whole text is written.\<close>

definition json_dump :: "nat \<Rightarrow> json \<Rightarrow> dump_result" where
  "json_dump indent data =
     (if json_ok nesting_limit data then Written (json_dumps indent data) else undefined)"

subsection \<open>Notions used in the proofs\<close>



section \<open>The output path\<close>

lemma takeWhile_rev_all: "sep \<notin> set s \<Longrightarrow> takeWhile (\<lambda>c. c \<noteq> sep) (rev s) = rev s"
  by (rule takeWhile_eq_all_conv [THEN iffD2]) auto

lemma rsplit1_no_sep: "sep \<notin> set s \<Longrightarrow> rsplit1 sep s = [s]"
  by (simp add: rsplit1_def Let_def takeWhile_rev_all)

lemma rsplit1_last_sep:
  assumes "sep \<notin> set e"
  shows "rsplit1 sep (b @ sep # e) = [b, e]"
proof -
  have "takeWhile (\<lambda>c. c \<noteq> sep) (rev (b @ sep # e)) = rev e"
    using assms by (auto simp: takeWhile_tail)
  then show ?thesis
    by (simp add: rsplit1_def Let_def)
qed

lemma rsplit1_not_Nil: "rsplit1 sep s \<noteq> []"
  by (simp add: rsplit1_def Let_def)

text \<open>
  \<^bold>\<open>C2.\<close> The output path is the input path cut at its last dot, with \<^verbatim>\<open>.json\<close>
  appended: a path without a dot is the base as a whole, and behind the last dot of a
  path (\<open>ext\<close> holds no dot) everything is replaced.
\<close>

theorem output_path_spec:
  "(CHR ''.'' \<notin> set p \<longrightarrow> output_path p = p @ ''.json'') \<and>
   (CHR ''.'' \<notin> set ext \<longrightarrow> output_path (base @ ''.'' @ ext) = base @ ''.json'')"
  by (simp add: output_path_def rsplit1_no_sep rsplit1_last_sep)

theorem output_path_witness:
  "CHR ''.'' \<notin> set ''Makefile'' \<and> CHR ''.'' \<notin> set ''jsonc'' \<and>
   output_path ''config.jsonc'' = ''config.json'' \<and>
   output_path ''a.b.jsonc'' = ''a.b.json'' \<and>
   output_path ''Makefile'' = ''Makefile.json''"
  using output_path_spec [where p = "''Makefile''" and ext = "''jsonc''" and base = "''config''"]
    output_path_spec [where p = "''Makefile''" and ext = "''jsonc''" and base = "''a.b''"]
  by simp

section \<open>Block comments\<close>

lemma find_block_end_None: "\<not> sublist ''*/'' r \<Longrightarrow> find_block_end r = None"
  by (induction r rule: find_block_end.induct) (auto simp: sublist_Cons_right)

lemma find_block_end_first:
  "\<not> sublist ''*/'' body \<Longrightarrow> find_block_end (body @ ''*/'' @ rest) = Some rest"
proof (induction body)
  case Nil
  then show ?case by simp
next
  case (Cons a body)
  then have nb: "\<not> sublist ''*/'' body" and np: "\<not> prefix ''*/'' (a # body)"
    by (auto simp: sublist_Cons_right)
  show ?case
  proof (cases body)
    case Nil
    then show ?thesis using Cons.IH nb by simp
  next
    case (Cons b body')
    then show ?thesis using Cons.IH nb np by auto
  qed
qed

lemma remove_block_comments_prefix:
  "\<not> sublist ''/*'' pre \<Longrightarrow>
     remove_block_comments (pre @ CHR ''/'' # CHR ''*'' # t) = pre @ remove_block_comments (CHR ''/'' # CHR ''*'' # t)"
proof (induction pre)
  case Nil
  then show ?case by simp
next
  case (Cons a pre)
  then have np: "\<not> sublist ''/*'' pre" and nh: "\<not> prefix ''/*'' (a # pre)"
    by (auto simp: sublist_Cons_right)
  show ?case
  proof (cases pre)
    case Nil
    then show ?thesis by simp
  next
    case (Cons b pre')
    then show ?thesis using Cons.IH np nh by auto
  qed
qed

lemma remove_block_comments_no_close:
  "\<not> sublist ''*/'' (tl t) \<Longrightarrow> remove_block_comments t = t"
proof (induction t rule: remove_block_comments.induct)
  case (3 a b r)
  then have nr: "\<not> sublist ''*/'' r"
    by (auto simp: sublist_Cons_right)
  then have "find_block_end r = None" by (rule find_block_end_None)
  then show ?case using 3 nr by simp
qed simp_all

lemma remove_block_comments_no_open:
  "\<not> sublist ''/*'' s \<Longrightarrow> remove_block_comments s = s"
  by (induction s rule: remove_block_comments.induct) (auto simp: sublist_Cons_right)

text \<open>
  \<^bold>\<open>C3.\<close> Step 1 deletes block comments, leftmost first and each up to the first
  \<^verbatim>\<open>*/\<close> behind its \<^verbatim>\<open>/*\<close>: a text without \<^verbatim>\<open>/*\<close> is unchanged; where \<open>pre\<close> holds no
  \<^verbatim>\<open>/*\<close> and \<open>body\<close>, which may hold newlines, no \<^verbatim>\<open>*/\<close>, the comment
  \<^verbatim>\<open>/*\<close> \<open>body\<close> \<^verbatim>\<open>*/\<close> is deleted with its delimiters and the step goes on behind it;
  a \<^verbatim>\<open>/*\<close> with no \<^verbatim>\<open>*/\<close> behind it stays, with all the text that follows.
\<close>

theorem remove_block_comments_spec:
  "(\<not> sublist ''/*'' s \<longrightarrow> remove_block_comments s = s) \<and>
   (\<not> sublist ''/*'' pre \<and> \<not> sublist ''*/'' body \<longrightarrow>
      remove_block_comments (pre @ ''/*'' @ body @ ''*/'' @ rest)
        = pre @ remove_block_comments rest) \<and>
   (\<not> sublist ''/*'' pre \<and> \<not> sublist ''*/'' t \<longrightarrow>
      remove_block_comments (pre @ ''/*'' @ t) = pre @ ''/*'' @ t)"
proof (intro conjI impI)
  assume "\<not> sublist ''/*'' s"
  then show "remove_block_comments s = s" by (rule remove_block_comments_no_open)
next
  assume a: "\<not> sublist ''/*'' pre \<and> \<not> sublist ''*/'' body"
  then have "find_block_end (body @ ''*/'' @ rest) = Some rest"
    by (rule find_block_end_first [OF conjunct2])
  then show "remove_block_comments (pre @ ''/*'' @ body @ ''*/'' @ rest)
        = pre @ remove_block_comments rest"
    using a remove_block_comments_prefix [of pre "body @ ''*/'' @ rest"] by simp
next
  assume a: "\<not> sublist ''/*'' pre \<and> \<not> sublist ''*/'' t"
  then have "find_block_end t = None" by (rule find_block_end_None [OF conjunct2])
  moreover have "remove_block_comments (CHR ''*'' # t) = CHR ''*'' # t"
    using a by (simp add: remove_block_comments_no_close)
  ultimately show "remove_block_comments (pre @ ''/*'' @ t) = pre @ ''/*'' @ t"
    using a remove_block_comments_prefix [of pre t] by simp
qed

theorem remove_block_comments_witness:
  \<open>\<not> sublist ''/*'' ''{"a": '' \<and> \<not> sublist ''*/'' '' c\<newline> '' \<and> \<not> sublist ''/*'' '' 1}'' \<and>
   remove_block_comments ''{"a": /* c\<newline> */ 1}'' = ''{"a":  1}'' \<and>
   remove_block_comments ''{"a": /* c'' = ''{"a": /* c''\<close>
  using remove_block_comments_spec
    [where s = "'' 1}''" and pre = \<open>''{"a": ''\<close> and body = "'' c\<newline> ''" and rest = "'' 1}''"
       and t = "'' c''"]
  by (simp add: sublist_Cons_right)

section \<open>Line comments\<close>

lemma remove_line_comments_no_open:
  "\<not> sublist ''//'' l \<Longrightarrow> remove_line_comments l = l"
  by (induction l rule: remove_line_comments.induct) (auto simp: sublist_Cons_right)

lemma remove_line_comments_keep:
  "\<not> sublist ''//'' l \<Longrightarrow> x \<noteq> CHR ''/'' \<Longrightarrow>
     remove_line_comments (l @ x # rest) = l @ remove_line_comments (x # rest)"
proof (induction l)
  case Nil
  then show ?case by simp
next
  case (Cons a l)
  then have nl: "\<not> sublist ''//'' l" and nh: "\<not> prefix ''//'' (a # l)"
    by (auto simp: sublist_Cons_right)
  show ?case
  proof (cases l)
    case Nil
    then show ?thesis using Cons.prems by simp
  next
    case (Cons b l')
    then show ?thesis using Cons.IH Cons.prems nl nh by auto
  qed
qed

lemma remove_line_comments_newline:
  "remove_line_comments (newline # rest) = newline # remove_line_comments rest"
  by (cases rest) (simp_all add: newline_def)

lemma remove_line_comments_prefix:
  "\<not> sublist ''//'' (pre @ ''/'') \<Longrightarrow>
     remove_line_comments (pre @ CHR ''/'' # CHR ''/'' # t)
       = pre @ remove_line_comments (CHR ''/'' # CHR ''/'' # t)"
proof (induction pre)
  case Nil
  then show ?case by simp
next
  case (Cons a pre)
  then have np: "\<not> sublist ''//'' (pre @ ''/'')" and nh: "\<not> prefix ''//'' (a # pre @ ''/'')"
    by (auto simp: sublist_Cons_right)
  show ?case
  proof (cases pre)
    case Nil
    then show ?thesis using nh by simp
  next
    case (Cons b pre')
    then show ?thesis using Cons.IH np nh by auto
  qed
qed

lemma dropWhile_comment_end:
  "newline \<notin> set cmt \<Longrightarrow> dropWhile (\<lambda>c. c \<noteq> newline) cmt = []"
  by (induction cmt) auto

lemma dropWhile_comment_newline:
  "newline \<notin> set cmt \<Longrightarrow> dropWhile (\<lambda>c. c \<noteq> newline) (cmt @ newline # rest) = newline # rest"
  by (induction cmt) auto

text \<open>
  \<^bold>\<open>C4.\<close> Step 2 deletes, line by line, the text from the first \<^verbatim>\<open>//\<close> of a line to
  the end of that line. Text without \<^verbatim>\<open>//\<close> is kept, up to a newline and at the end of
  the input. Where \<open>pre\<close> is the text before the first \<^verbatim>\<open>//\<close> and \<open>cmt\<close> the rest
  of that line, \<open>pre\<close> is kept and \<^verbatim>\<open>//\<close> \<open>cmt\<close> deleted; the newline stays and the
  lines behind it are treated on their own.
\<close>

theorem remove_line_comments_spec:
  "(\<not> sublist ''//'' l \<longrightarrow> remove_line_comments l = l) \<and>
   (\<not> sublist ''//'' l \<longrightarrow>
      remove_line_comments (l @ newline # rest) = l @ newline # remove_line_comments rest) \<and>
   (\<not> sublist ''//'' (pre @ ''/'') \<and> newline \<notin> set cmt \<longrightarrow>
      remove_line_comments (pre @ ''//'' @ cmt @ newline # rest)
        = pre @ newline # remove_line_comments rest) \<and>
   (\<not> sublist ''//'' (pre @ ''/'') \<and> newline \<notin> set cmt \<longrightarrow>
      remove_line_comments (pre @ ''//'' @ cmt) = pre)"
proof (intro conjI impI)
  assume "\<not> sublist ''//'' l"
  then show "remove_line_comments l = l" by (rule remove_line_comments_no_open)
next
  assume "\<not> sublist ''//'' l"
  then show "remove_line_comments (l @ newline # rest) = l @ newline # remove_line_comments rest"
    by (simp add: remove_line_comments_keep newline_def remove_line_comments_newline [unfolded newline_def])
next
  assume a: "\<not> sublist ''//'' (pre @ ''/'') \<and> newline \<notin> set cmt"
  then show "remove_line_comments (pre @ ''//'' @ cmt @ newline # rest)
        = pre @ newline # remove_line_comments rest"
    using remove_line_comments_prefix [of pre "cmt @ newline # rest"]
    by (simp add: remove_line_comments_newline dropWhile_comment_newline)
next
  assume a: "\<not> sublist ''//'' (pre @ ''/'') \<and> newline \<notin> set cmt"
  then show "remove_line_comments (pre @ ''//'' @ cmt) = pre"
    using remove_line_comments_prefix [of pre cmt]
    by (simp add: dropWhile_comment_end)
qed

theorem remove_line_comments_witness:
  \<open>\<not> sublist ''//'' (''"a": 1, '' @ ''/'') \<and> newline \<notin> set '' comment'' \<and>
   \<not> sublist ''//'' ''"b": 2'' \<and>
   remove_line_comments (''"a": 1, // comment'' @ newline # ''"b": 2'')
     = ''"a": 1, '' @ newline # ''"b": 2''\<close>
  using remove_line_comments_spec
    [where l = \<open>''"b": 2''\<close> and pre = \<open>''"a": 1, ''\<close> and cmt = "'' comment''"
       and rest = \<open>''"b": 2''\<close>]
  by (simp add: sublist_Cons_right newline_def)

section \<open>Trailing commas\<close>

lemma is_space_not_comma: "is_space c \<Longrightarrow> c \<noteq> CHR '',''"
  by (auto simp: is_space_def)

lemma is_closer_not_space: "is_closer c \<Longrightarrow> \<not> is_space c"
  by (auto simp: is_space_def is_closer_def)

lemma is_closer_not_comma: "is_closer c \<Longrightarrow> c \<noteq> CHR '',''"
  by (auto simp: is_closer_def)

lemma dropWhile_spaces:
  "\<forall>x\<in>set ws. is_space x \<Longrightarrow> \<not> is_space d \<Longrightarrow> dropWhile is_space (ws @ d # rest) = d # rest"
  by (simp add: dropWhile_append3)

lemma dropWhile_spaces_end:
  "\<forall>x\<in>set ws. is_space x \<Longrightarrow> dropWhile is_space ws = []"
  by (induction ws) auto

lemma remove_trailing_commas_spaces:
  "\<forall>x\<in>set ws. is_space x \<Longrightarrow> remove_trailing_commas (ws @ t) = ws @ remove_trailing_commas t"
  by (induction ws) (auto dest: is_space_not_comma)

lemma remove_trailing_commas_skip:
  assumes "dropWhile is_space r = c # rest" "c \<noteq> CHR '',''"
  shows "dropWhile is_space (remove_trailing_commas r) = c # remove_trailing_commas rest"
proof -
  have ns: "\<not> is_space c"
    using assms(1) by (metis hd_dropWhile list.sel(1) list.distinct(1))
  have r: "r = takeWhile is_space r @ c # rest"
    using assms(1) takeWhile_dropWhile_id [of is_space r] by simp
  have sp: "\<forall>x\<in>set (takeWhile is_space r). is_space x"
    by (auto dest: set_takeWhileD)
  have "remove_trailing_commas r = takeWhile is_space r @ remove_trailing_commas (c # rest)"
    using remove_trailing_commas_spaces [OF sp, of "c # rest"] r by simp
  also have "\<dots> = takeWhile is_space r @ c # remove_trailing_commas rest"
    using assms(2) by simp
  finally show ?thesis
    using sp ns by (simp add: dropWhile_spaces)
qed

lemma has_double_comma_dropWhile:
  "has_double_comma (dropWhile P r) \<Longrightarrow> has_double_comma r"
  by (induction r) (auto split: if_splits)

lemma has_double_comma_tail:
  "dropWhile P r = c # rest \<Longrightarrow> has_double_comma rest \<Longrightarrow> has_double_comma r"
  using has_double_comma_dropWhile [of P r] by simp

lemma remove_trailing_commas_all_spaces:
  "dropWhile is_space r = [] \<Longrightarrow> dropWhile is_space (remove_trailing_commas r) = []"
proof -
  assume "dropWhile is_space r = []"
  then have sp: "\<forall>x\<in>set r. is_space x" by (simp add: dropWhile_eq_Nil_conv)
  then have "remove_trailing_commas r = r"
    using remove_trailing_commas_spaces [of r "[]"] by simp
  then show ?thesis using sp by (simp add: dropWhile_spaces_end)
qed

lemma trailing_comma_at_end:
  "dropWhile is_space r = [] \<Longrightarrow> \<not> trailing_comma_at (a # r)"
  by (simp add: trailing_comma_at_def del: dropWhile_eq_Nil_conv)

lemma trailing_comma_at_Cons:
  "dropWhile is_space r = c # rest \<Longrightarrow> trailing_comma_at (a # r) = (a = CHR '','' \<and> is_closer c)"
  by (simp add: trailing_comma_at_def)

lemma remove_trailing_commas_end:
  "dropWhile is_space r = [] \<Longrightarrow>
     remove_trailing_commas (CHR '','' # r) = CHR '','' # remove_trailing_commas r"
  by (simp del: dropWhile_eq_Nil_conv)

lemma remove_trailing_commas_clean:
  "\<not> has_double_comma s \<Longrightarrow> \<not> has_trailing_comma (remove_trailing_commas s)"
proof (induction s rule: remove_trailing_commas.induct)
  case 1
  then show ?case by simp
next
  case (2 a r)
  show ?case
  proof (cases "a = CHR '',''")
    case False
    then show ?thesis using 2 by (simp add: trailing_comma_at_def)
  next
    case True
    note comma = this
    show ?thesis
    proof (cases "dropWhile is_space r")
      case Nil
      then have "dropWhile is_space (remove_trailing_commas r) = []"
        by (rule remove_trailing_commas_all_spaces)
      then have "\<not> trailing_comma_at (CHR '','' # remove_trailing_commas r)"
        by (rule trailing_comma_at_end)
      moreover have "\<not> has_trailing_comma (remove_trailing_commas r)"
        using "2.IH"(1) [OF comma Nil] "2.prems" by simp
      ultimately show ?thesis
        using comma remove_trailing_commas_end [OF Nil] by simp
    next
      case (Cons c rest)
      show ?thesis
      proof (cases "is_closer c")
        case True
        have "\<not> has_double_comma rest"
          using "2.prems" has_double_comma_tail [OF Cons] by auto
        then have "\<not> has_trailing_comma (remove_trailing_commas rest)"
          using "2.IH"(2) [OF comma Cons True] by simp
        then show ?thesis
          using comma Cons True by (simp add: trailing_comma_at_def is_closer_not_comma)
      next
        case False
        have nc: "c \<noteq> CHR '',''"
          using "2.prems" comma Cons by (auto simp: double_comma_at_def)
        have "dropWhile is_space (remove_trailing_commas r) = c # remove_trailing_commas rest"
          using Cons nc by (rule remove_trailing_commas_skip)
        moreover have "\<not> has_trailing_comma (remove_trailing_commas r)"
          using "2.IH"(3) [OF comma Cons False] "2.prems" by simp
        ultimately show ?thesis
          using comma Cons False by (simp add: trailing_comma_at_def)
      qed
    qed
  qed
qed

lemma remove_trailing_commas_keep:
  "\<not> trailing_comma_at (c # rest) \<Longrightarrow>
     remove_trailing_commas (c # rest) = c # remove_trailing_commas rest"
proof (cases "c = CHR '',''")
  case False
  then show ?thesis by simp
next
  case True
  assume n: "\<not> trailing_comma_at (c # rest)"
  show ?thesis
  proof (cases "dropWhile is_space rest")
    case Nil
    then show ?thesis using True remove_trailing_commas_end [OF Nil] by simp
  next
    case (Cons x rest')
    then have "\<not> is_closer x"
      using n True by (simp add: trailing_comma_at_Cons)
    then show ?thesis using True Cons by simp
  qed
qed

lemma remove_trailing_commas_dropWhile:
  "dropWhile is_space (remove_trailing_commas r)
     = dropWhile is_space (remove_trailing_commas (dropWhile is_space r))"
proof -
  have sp: "\<forall>x\<in>set (takeWhile is_space r). is_space x"
    by (auto dest: set_takeWhileD)
  have "remove_trailing_commas (takeWhile is_space r @ dropWhile is_space r)
      = takeWhile is_space r @ remove_trailing_commas (dropWhile is_space r)"
    using sp by (rule remove_trailing_commas_spaces)
  then have "remove_trailing_commas r
      = takeWhile is_space r @ remove_trailing_commas (dropWhile is_space r)"
    by simp
  then show ?thesis
    using sp by (simp add: dropWhile_append3)
qed

lemma has_stacked_comma_dropWhile:
  "has_stacked_comma (dropWhile is_space r) = has_stacked_comma r"
  by (induction r) (auto simp: stacked_comma_at_def dest: is_space_not_comma)

lemma has_stacked_comma_double: "has_stacked_comma s \<Longrightarrow> has_double_comma s"
proof (induction s)
  case Nil
  then show ?case by simp
next
  case (Cons a s)
  show ?case
  proof (cases "stacked_comma_at (a # s)")
    case True
    then have a: "a = CHR '',''" and t: "trailing_comma_at (dropWhile is_space s)"
      by (simp_all add: stacked_comma_at_def)
    from t obtain rest where "dropWhile is_space s = CHR '','' # rest"
      by (cases "dropWhile is_space s") (simp_all add: trailing_comma_at_def)
    then have "double_comma_at (a # s)"
      using a by (simp add: double_comma_at_def)
    then show ?thesis by simp
  next
    case False
    then show ?thesis using Cons by simp
  qed
qed

lemma remove_trailing_commas_exact:
  "has_trailing_comma (remove_trailing_commas s) = has_stacked_comma s"
proof (induction s rule: remove_trailing_commas.induct)
  case 1
  then show ?case by simp
next
  case (2 a r)
  show ?case
  proof (cases "a = CHR '',''")
    case False
    then show ?thesis
      using "2.IH"(4) by (simp add: trailing_comma_at_def stacked_comma_at_def)
  next
    case True
    note comma = this
    show ?thesis
    proof (cases "dropWhile is_space r")
      case Nil
      then have "dropWhile is_space (remove_trailing_commas r) = []"
        by (rule remove_trailing_commas_all_spaces)
      then have "\<not> trailing_comma_at (CHR '','' # remove_trailing_commas r)"
        by (rule trailing_comma_at_end)
      moreover have "\<not> stacked_comma_at (a # r)"
        using Nil by (simp add: stacked_comma_at_def trailing_comma_at_def del: dropWhile_eq_Nil_conv)
      ultimately show ?thesis
        using comma remove_trailing_commas_end [OF Nil] "2.IH"(1) [OF comma Nil] by simp
    next
      case (Cons c rest)
      show ?thesis
      proof (cases "is_closer c")
        case True
        have nc: "c \<noteq> CHR '',''" using True by (rule is_closer_not_comma)
        have "has_stacked_comma r = has_stacked_comma (c # rest)"
          using has_stacked_comma_dropWhile [of r] Cons by simp
        also have "\<dots> = has_stacked_comma rest"
          using nc by (simp add: stacked_comma_at_def)
        finally have hr: "has_stacked_comma r = has_stacked_comma rest" .
        have ns: "\<not> stacked_comma_at (a # r)"
          using Cons nc by (simp add: stacked_comma_at_def trailing_comma_at_def)
        have "has_trailing_comma (remove_trailing_commas (a # r))
            = has_trailing_comma (remove_trailing_commas rest)"
          using comma Cons True nc by (simp add: trailing_comma_at_def)
        then show ?thesis
          using "2.IH"(2) [OF comma Cons True] hr ns by simp
      next
        case False
        have e: "remove_trailing_commas (a # r) = CHR '','' # remove_trailing_commas r"
          using comma Cons False by simp
        have st: "stacked_comma_at (a # r) = trailing_comma_at (c # rest)"
          using comma Cons by (simp add: stacked_comma_at_def)
        have ns: "\<not> is_space c"
          using Cons by (metis hd_dropWhile list.sel(1) list.distinct(1))
        have d: "dropWhile is_space (remove_trailing_commas r)
            = dropWhile is_space (remove_trailing_commas (c # rest))"
          using remove_trailing_commas_dropWhile [of r] Cons by simp
        have "trailing_comma_at (CHR '','' # remove_trailing_commas r) = trailing_comma_at (c # rest)"
        proof (cases "trailing_comma_at (c # rest)")
          case False
          then have "remove_trailing_commas (c # rest) = c # remove_trailing_commas rest"
            by (rule remove_trailing_commas_keep)
          then have "dropWhile is_space (remove_trailing_commas r) = c # remove_trailing_commas rest"
            using d ns by simp
          then show ?thesis
            using False \<open>\<not> is_closer c\<close> by (simp add: trailing_comma_at_Cons)
        next
          case True
          then obtain c2 rest2 where c: "c = CHR '',''"
            and d2: "dropWhile is_space rest = c2 # rest2" and cl: "is_closer c2"
            by (auto simp: trailing_comma_at_def split: list.splits)
          have "remove_trailing_commas (c # rest) = c2 # remove_trailing_commas rest2"
            using c d2 cl by simp
          then have "dropWhile is_space (remove_trailing_commas r) = c2 # remove_trailing_commas rest2"
            using d cl by (simp add: is_closer_not_space)
          then show ?thesis
            using True cl by (simp add: trailing_comma_at_Cons)
        qed
        then show ?thesis
          using e st "2.IH"(3) [OF comma Cons False] by simp
      qed
    qed
  qed
qed

lemma trailing_comma_at_iff:
  "trailing_comma_at s \<longleftrightarrow>
     (\<exists>ws c post. s = '','' @ ws @ c # post \<and> (\<forall>x\<in>set ws. is_space x) \<and> is_closer c)"
proof
  assume "trailing_comma_at s"
  then obtain r c post where s: "s = CHR '','' # r" and d: "dropWhile is_space r = c # post"
    and c: "is_closer c"
    by (auto simp: trailing_comma_at_def split: list.splits)
  have "r = takeWhile is_space r @ c # post"
    using d takeWhile_dropWhile_id [of is_space r] by simp
  moreover have "\<forall>x\<in>set (takeWhile is_space r). is_space x"
    by (auto dest: set_takeWhileD)
  ultimately show "\<exists>ws c post. s = '','' @ ws @ c # post \<and> (\<forall>x\<in>set ws. is_space x) \<and> is_closer c"
    using s c by auto
next
  assume "\<exists>ws c post. s = '','' @ ws @ c # post \<and> (\<forall>x\<in>set ws. is_space x) \<and> is_closer c"
  then show "trailing_comma_at s"
    by (auto simp: trailing_comma_at_def dropWhile_spaces is_closer_not_space)
qed

lemma has_trailing_comma_iff:
  "has_trailing_comma s \<longleftrightarrow>
     (\<exists>pre ws c post. s = pre @ '','' @ ws @ c # post \<and> (\<forall>x\<in>set ws. is_space x) \<and> is_closer c)"
proof (induction s)
  case Nil
  then show ?case by simp
next
  case (Cons a s)
  show ?case
  proof
    assume "has_trailing_comma (a # s)"
    then consider "trailing_comma_at (a # s)" | "has_trailing_comma s" by auto
    then show "\<exists>pre ws c post. a # s = pre @ '','' @ ws @ c # post \<and> (\<forall>x\<in>set ws. is_space x) \<and> is_closer c"
    proof cases
      case 1
      then obtain ws c post where "a # s = [] @ '','' @ ws @ c # post" "\<forall>x\<in>set ws. is_space x" "is_closer c"
        unfolding trailing_comma_at_iff by auto
      then show ?thesis by blast
    next
      case 2
      then obtain pre ws c post where "s = pre @ '','' @ ws @ c # post" "\<forall>x\<in>set ws. is_space x" "is_closer c"
        using Cons.IH by auto
      then have "a # s = (a # pre) @ '','' @ ws @ c # post" by simp
      then show ?thesis using \<open>\<forall>x\<in>set ws. is_space x\<close> \<open>is_closer c\<close> by blast
    qed
  next
    assume "\<exists>pre ws c post. a # s = pre @ '','' @ ws @ c # post \<and> (\<forall>x\<in>set ws. is_space x) \<and> is_closer c"
    then obtain pre ws c post where e: "a # s = pre @ '','' @ ws @ c # post"
      and w: "\<forall>x\<in>set ws. is_space x" and c: "is_closer c" by auto
    show "has_trailing_comma (a # s)"
    proof (cases pre)
      case Nil
      then have "trailing_comma_at (a # s)"
        unfolding trailing_comma_at_iff using e w c by auto
      then show ?thesis by simp
    next
      case (Cons b pre')
      then have "s = pre' @ '','' @ ws @ c # post" using e by simp
      then have "has_trailing_comma s" using Cons.IH w c by blast
      then show ?thesis by simp
    qed
  qed
qed

text \<open>
  \<^bold>\<open>C5.\<close> Step 3 replaces every comma that has only white space \<open>ws\<close> between it and
  a closing \<^verbatim>\<open>]\<close> or \<^verbatim>\<open>}\<close> by that closer, and goes on behind the closer. A comma
  followed by white space and another character \<open>d\<close>, a comma followed by white space
  to the end of the text, and every other character are kept; the empty text stays
  empty. The step makes one pass, so of two commas before a closer the first one stays,
  and the claim that no comma is left before a closer fails as stated. What holds: when
  no two commas of the input have only white space between them, no comma of the result
  has only white space between it and a closer, at whatever depth of nesting. Exactly:
  the result has such a comma if and only if the input has a comma with only white space
  between it and a comma that has only white space between it and a closer.
\<close>

theorem remove_trailing_commas_spec:
  "remove_trailing_commas [] = [] \<and>
   ((\<forall>x\<in>set ws. is_space x) \<and> is_closer c \<longrightarrow>
      remove_trailing_commas ('','' @ ws @ c # rest) = c # remove_trailing_commas rest) \<and>
   ((\<forall>x\<in>set ws. is_space x) \<and> \<not> is_space d \<and> \<not> is_closer d \<longrightarrow>
      remove_trailing_commas ('','' @ ws @ d # rest)
        = '','' @ ws @ remove_trailing_commas (d # rest)) \<and>
   ((\<forall>x\<in>set ws. is_space x) \<longrightarrow> remove_trailing_commas ('','' @ ws) = '','' @ ws) \<and>
   (a \<noteq> CHR '','' \<longrightarrow> remove_trailing_commas (a # r) = a # remove_trailing_commas r) \<and>
   (\<not> has_double_comma s \<longrightarrow> \<not> has_trailing_comma (remove_trailing_commas s)) \<and>
   has_trailing_comma (remove_trailing_commas s') = has_stacked_comma s'"
proof (intro conjI impI)
  show "remove_trailing_commas [] = []" by simp
next
  assume a: "(\<forall>x\<in>set ws. is_space x) \<and> is_closer c"
  then have "dropWhile is_space (ws @ c # rest) = c # rest"
    by (simp add: dropWhile_spaces is_closer_not_space)
  then show "remove_trailing_commas ('','' @ ws @ c # rest) = c # remove_trailing_commas rest"
    using a by simp
next
  assume a: "(\<forall>x\<in>set ws. is_space x) \<and> \<not> is_space d \<and> \<not> is_closer d"
  then have "dropWhile is_space (ws @ d # rest) = d # rest"
    by (simp add: dropWhile_spaces)
  then show "remove_trailing_commas ('','' @ ws @ d # rest)
        = '','' @ ws @ remove_trailing_commas (d # rest)"
    using a by (simp add: remove_trailing_commas_spaces)
next
  assume a: "\<forall>x\<in>set ws. is_space x"
  then have "remove_trailing_commas ws = ws"
    using remove_trailing_commas_spaces [of ws "[]"] by simp
  then show "remove_trailing_commas ('','' @ ws) = '','' @ ws"
    using a by (simp add: dropWhile_spaces_end)
next
  assume "a \<noteq> CHR '',''"
  then show "remove_trailing_commas (a # r) = a # remove_trailing_commas r" by simp
next
  assume "\<not> has_double_comma s"
  then show "\<not> has_trailing_comma (remove_trailing_commas s)"
    by (rule remove_trailing_commas_clean)
next
  show "has_trailing_comma (remove_trailing_commas s') = has_stacked_comma s'"
    by (rule remove_trailing_commas_exact)
qed

theorem remove_trailing_commas_witness:
  \<open>is_space (CHR '' '') \<and> is_space newline \<and> is_closer (CHR '']'') \<and>
   \<not> is_space (CHR ''3'') \<and> \<not> is_closer (CHR ''3'') \<and> CHR ''['' \<noteq> CHR '','' \<and>
   \<not> has_double_comma ''{"a": [1, 2,], "b": {"c": 3,},}'' \<and>
   remove_trailing_commas [] = [] \<and>
   remove_trailing_commas '', \<newline>] x'' = ''] x'' \<and>
   remove_trailing_commas '', \<newline>3]'' = '', \<newline>3]'' \<and>
   remove_trailing_commas '', \<newline>'' = '', \<newline>'' \<and>
   remove_trailing_commas ''[1,]'' = ''[1]'' \<and>
   remove_trailing_commas ''{"a": [1, 2,], "b": {"c": 3,},}'' = ''{"a": [1, 2], "b": {"c": 3}}'' \<and>
   \<not> has_trailing_comma (remove_trailing_commas ''{"a": [1, 2,], "b": {"c": 3,},}'') \<and>
   has_double_comma ''[1,, 2,]'' \<and> \<not> has_stacked_comma ''[1,, 2,]'' \<and>
   remove_trailing_commas ''[1,, 2,]'' = ''[1,, 2]'' \<and>
   \<not> has_trailing_comma (remove_trailing_commas ''[1,, 2,]'')\<close>
  using remove_trailing_commas_spec
    [where ws = "'' \<newline>''" and c = "CHR '']''" and rest = "'' x''" and d = "CHR ''3''"
       and a = "CHR ''[''" and r = "''1,]''" and s = \<open>''{"a": [1, 2,], "b": {"c": 3,},}''\<close>
       and s' = "''[1,, 2,]''"]
  by (simp add: is_space_def is_closer_def double_comma_at_def trailing_comma_at_def
      stacked_comma_at_def newline_def)

theorem remove_trailing_commas_counterexample:
  \<open>remove_trailing_commas ''{"a": [1, 2,,], "b": {"c": 3,},}'' = ''{"a": [1, 2,], "b": {"c": 3}}'' \<and>
   has_trailing_comma (remove_trailing_commas ''{"a": [1, 2,,], "b": {"c": 3,},}'')\<close>
  by (simp add: is_space_def is_closer_def trailing_comma_at_def)

section \<open>The model of \<^verbatim>\<open>json\<close> reads back what it writes\<close>

text \<open>
  The aim of this section is \<open>json_decode_dumps\<close>: the decoder returns \<open>v\<close> from the
  text that the encoder writes for a value \<open>v\<close> within the limits of \<open>json_ok\<close>; and
  \<open>json_decode_ok\<close>: every value that the decoder returns is within these limits.
\<close>

subsection \<open>Numbers\<close>

declare str_nat.simps [simp del]












subsection \<open>Strings\<close>














subsection \<open>Values\<close>





























subsection \<open>What the decoder returns\<close>









section \<open>The conversion\<close>

lemma clean_unfold:
  "remove_trailing_commas (remove_line_comments (remove_block_comments content)) = clean content"
  by (simp add: clean_def)

lemma convert_missing:
  assumes "files w input_path = None"
  shows "convert_jsonc_to_json loads dump input_path w = (Some (FileNotFoundError input_path), w)"
  using assms by (simp add: convert_jsonc_to_json_def Let_def)

lemma convert_failure:
  assumes "files w input_path = Some content"
    and "loads (clean content) = JSONDecodeError diag"
  shows "convert_jsonc_to_json loads dump input_path w =
           (Some (SystemExit 1),
            w\<lparr>stdout := stdout w @ [''Error parsing JSON after cleaning: '' @ diag]\<rparr>)"
  using assms by (simp add: convert_jsonc_to_json_def Let_def clean_unfold py_print_def)

lemma convert_raised:
  assumes "files w input_path = Some content"
    and "loads (clean content) = Raised x"
  shows "convert_jsonc_to_json loads dump input_path w = (Some (Uncaught x), w)"
  using assms by (simp add: convert_jsonc_to_json_def Let_def clean_unfold py_print_def)

lemma convert_success:
  assumes "files w input_path = Some content"
    and "loads (clean content) = Parsed data"
    and "dump 4 data = Written out"
  shows "convert_jsonc_to_json loads dump input_path w =
           (None,
            w\<lparr>files := (files w)(output_path input_path \<mapsto> out),
              stdout := stdout w @ [''Successfully created: '' @ output_path input_path]\<rparr>)"
  using assms by (simp add: convert_jsonc_to_json_def Let_def clean_unfold py_print_def)

lemma convert_dump_raised:
  assumes "files w input_path = Some content"
    and "loads (clean content) = Parsed data"
    and "dump 4 data = DumpRaised x part"
  shows "convert_jsonc_to_json loads dump input_path w =
           (Some (Uncaught x), w\<lparr>files := (files w)(output_path input_path \<mapsto> part)\<rparr>)"
  using assms by (simp add: convert_jsonc_to_json_def Let_def clean_unfold py_print_def)

lemma convert_cases:
  obtains (missing) "files w p = None"
  | (success) content data out where "files w p = Some content"
      "loads (clean content) = Parsed data" "dump 4 data = Written out"
  | (dump_raised) content data x part where "files w p = Some content"
      "loads (clean content) = Parsed data" "dump 4 data = DumpRaised x part"
  | (failure) content diag where "files w p = Some content"
      "loads (clean content) = JSONDecodeError diag"
  | (raised) content x where "files w p = Some content" "loads (clean content) = Raised x"
proof (cases "files w p")
  case None
  then show ?thesis by (rule missing)
next
  case (Some content)
  show ?thesis
  proof (cases "loads (clean content)")
    case (Parsed data)
    show ?thesis
    proof (cases "dump 4 data")
      case (Written out)
      show ?thesis using Some Parsed Written by (rule success)
    next
      case (DumpRaised x part)
      show ?thesis using Some Parsed DumpRaised by (rule dump_raised)
    qed
  next
    case (JSONDecodeError diag)
    show ?thesis using Some JSONDecodeError by (rule failure)
  next
    case (Raised x)
    show ?thesis using Some Raised by (rule raised)
  qed
qed

lemma main_status:
  "convert_jsonc_to_json loads dump p w = (e, w') \<Longrightarrow>
     fst (main loads dump [prog, p] w)
       = (case e of None \<Rightarrow> 0 | Some (SystemExit n) \<Rightarrow> n | Some _ \<Rightarrow> 1)"
  by (simp add: main_def split: option.splits exn.splits)





text \<open>
  The model of the \<^verbatim>\<open>json\<close> module reads back what it writes: a value that the decoder
  returns is within the limits of \<open>json_ok\<close>, \<open>json_dump\<close> writes the whole text of such
  a value, and \<open>json_loads\<close> returns the value from that text.
\<close>

lemma json_loads_decode: "json_decode s = Scanned v rest \<Longrightarrow> json_loads s = Parsed v"
  by (simp add: json_loads_def)

lemma json_dump_written: "json_ok nesting_limit v \<Longrightarrow> json_dump i v = Written (json_dumps i v)"
  by (simp add: json_dump_def)





lemma decode_nan: \<open>json_decode (clean ''[NaN]'') = Scanned (JList [JNaN]) []\<close>
  by code_simp

lemma dumps_nan: \<open>json_dumps 4 (JList [JNaN]) = ''[\<newline>    NaN\<newline>]''\<close>
  by code_simp









lemma output_path_examples:
  "output_path ''a.jsonc'' = ''a.json''" "output_path ''b.jsonc'' = ''b.json''"
  "output_path ''a.json'' = ''a.json''"
  by code_simp+

text \<open>
  \<^bold>\<open>C1.\<close> The claim fails on the program. The text \<^verbatim>\<open>[NaN]\<close> is not JSON, and line 22 of
  the source says that the cleaned text is validated as JSON; but \<^verbatim>\<open>json.loads\<close> accepts
  the constant, so for an input file holding \<^verbatim>\<open>[NaN]\<close> no error is reported: the
  conversion writes \<^verbatim>\<open>NaN\<close> to the output file, prints its line of success, and the
  process exits with status 0. (What holds is \<open>convert_failure\<close>: when \<^verbatim>\<open>json.loads\<close>
  raises \<^verbatim>\<open>JSONDecodeError\<close> the diagnostic is printed, the exit status is 1 and no
  file is touched.)
\<close>

theorem nan_accepted:
  assumes "files w input_path = Some ''[NaN]''"
  shows "convert_jsonc_to_json json_loads json_dump input_path w =
           (None,
            w\<lparr>files := (files w)(output_path input_path \<mapsto> ''[\<newline>    NaN\<newline>]''),
              stdout := stdout w @ [''Successfully created: '' @ output_path input_path]\<rparr>)
       \<and> main json_loads json_dump [prog, input_path] w =
           (0,
            w\<lparr>files := (files w)(output_path input_path \<mapsto> ''[\<newline>    NaN\<newline>]''),
              stdout := stdout w @ [''Successfully created: '' @ output_path input_path]\<rparr>)"
proof -
  have l: "json_loads (clean ''[NaN]'') = Parsed (JList [JNaN])"
    using decode_nan by (rule json_loads_decode)
  have "json_ok nesting_limit (JList [JNaN])"
    by (simp add: nesting_limit_def)
  then have d: "json_dump 4 (JList [JNaN]) = Written ''[\<newline>    NaN\<newline>]''"
    by (simp add: json_dump_written dumps_nan)
  have r: "convert_jsonc_to_json json_loads json_dump input_path w =
           (None,
            w\<lparr>files := (files w)(output_path input_path \<mapsto> ''[\<newline>    NaN\<newline>]''),
              stdout := stdout w @ [''Successfully created: '' @ output_path input_path]\<rparr>)"
    using assms l d by (rule convert_success)
  then show ?thesis by (simp add: main_def)
qed

theorem nan_accepted_witness:
  "convert_jsonc_to_json json_loads json_dump ''a.jsonc''
       \<lparr>files = [''a.jsonc'' \<mapsto> ''[NaN]''], stdout = []\<rparr>
     = (None,
        \<lparr>files = [''a.jsonc'' \<mapsto> ''[NaN]'', ''a.json'' \<mapsto> ''[\<newline>    NaN\<newline>]''],
         stdout = [''Successfully created: a.json'']\<rparr>) \<and>
   main json_loads json_dump [''remove-json-comments.py'', ''a.jsonc'']
       \<lparr>files = [''a.jsonc'' \<mapsto> ''[NaN]''], stdout = []\<rparr>
     = (0,
        \<lparr>files = [''a.jsonc'' \<mapsto> ''[NaN]'', ''a.json'' \<mapsto> ''[\<newline>    NaN\<newline>]''],
         stdout = [''Successfully created: a.json'']\<rparr>)"
  using nan_accepted
    [where w = "\<lparr>files = [''a.jsonc'' \<mapsto> ''[NaN]''], stdout = []\<rparr>"
       and input_path = "''a.jsonc''" and prog = "''remove-json-comments.py''"]
  by (simp add: output_path_examples)

text \<open>
  \<^bold>\<open>C8.\<close> Called without an input path (\<^verbatim>\<open>sys.argv\<close> holds fewer than two entries),
  the script prints the usage line, converts nothing and exits with status 0.
\<close>

theorem usage_without_argument:
  "length argv < 2 \<Longrightarrow>
     main loads dumps argv w =
       (0, w\<lparr>stdout := stdout w @ [''Usage: python jsonc_to_json.py <filename.jsonc>'']\<rparr>)"
  by (simp add: main_def py_print_def usage_def)

theorem usage_without_argument_witness:
  "main json_loads json_dump [''remove-json-comments.py''] \<lparr>files = Map.empty, stdout = []\<rparr>
     = (0, \<lparr>files = Map.empty, stdout = [''Usage: python jsonc_to_json.py <filename.jsonc>'']\<rparr>)"
  using usage_without_argument
    [where argv = "[''remove-json-comments.py'']" and w = "\<lparr>files = Map.empty, stdout = []\<rparr>"
       and loads = json_loads and dumps = json_dump]
  by simp



text \<open>
  \<^bold>\<open>C10.\<close> The conversion is a function of the input path and the text of the input
  file: in two worlds that agree on the input file (and may differ in every other file
  and in what was printed before) it ends the same way, prints the same lines and
  writes the same files, and the process exits with the same status.
\<close>

theorem conversion_deterministic:
  assumes "files w1 input_path = files w2 input_path"
  shows "\<exists>e printed written.
           convert_jsonc_to_json loads dumps input_path w1 =
             (e, w1\<lparr>files := files w1 ++ written, stdout := stdout w1 @ printed\<rparr>) \<and>
           convert_jsonc_to_json loads dumps input_path w2 =
             (e, w2\<lparr>files := files w2 ++ written, stdout := stdout w2 @ printed\<rparr>) \<and>
           fst (main loads dumps [prog, input_path] w1) = (case e of None \<Rightarrow> 0 | Some (SystemExit n) \<Rightarrow> n | Some _ \<Rightarrow> 1) \<and>
           fst (main loads dumps [prog, input_path] w2) = (case e of None \<Rightarrow> 0 | Some (SystemExit n) \<Rightarrow> n | Some _ \<Rightarrow> 1)"
proof (cases rule: convert_cases [where w = w1 and p = input_path and loads = loads and dump = dumps])
  case missing
  then have m2: "files w2 input_path = None" using assms by simp
  have "convert_jsonc_to_json loads dumps input_path w1 =
      (Some (FileNotFoundError input_path), w1\<lparr>files := files w1 ++ Map.empty, stdout := stdout w1 @ []\<rparr>)"
    using missing by (simp add: convert_missing)
  moreover have "convert_jsonc_to_json loads dumps input_path w2 =
      (Some (FileNotFoundError input_path), w2\<lparr>files := files w2 ++ Map.empty, stdout := stdout w2 @ []\<rparr>)"
    using m2 by (simp add: convert_missing)
  ultimately show ?thesis using main_status [where prog = prog] by blast
next
  case (success content data out)
  then have c2: "files w2 input_path = Some content" using assms by simp
  let ?wr = "[output_path input_path \<mapsto> out]"
  let ?pr = "[''Successfully created: '' @ output_path input_path]"
  have "convert_jsonc_to_json loads dumps input_path w1 =
      (None, w1\<lparr>files := files w1 ++ ?wr, stdout := stdout w1 @ ?pr\<rparr>)"
    using success by (simp add: convert_success)
  moreover have "convert_jsonc_to_json loads dumps input_path w2 =
      (None, w2\<lparr>files := files w2 ++ ?wr, stdout := stdout w2 @ ?pr\<rparr>)"
    using c2 success(2,3) by (simp add: convert_success)
  ultimately show ?thesis using main_status [where prog = prog] by blast
next
  case (dump_raised content data x part)
  then have c2: "files w2 input_path = Some content" using assms by simp
  let ?wr = "[output_path input_path \<mapsto> part]"
  have "convert_jsonc_to_json loads dumps input_path w1 =
      (Some (Uncaught x), w1\<lparr>files := files w1 ++ ?wr, stdout := stdout w1 @ []\<rparr>)"
    using dump_raised by (simp add: convert_dump_raised)
  moreover have "convert_jsonc_to_json loads dumps input_path w2 =
      (Some (Uncaught x), w2\<lparr>files := files w2 ++ ?wr, stdout := stdout w2 @ []\<rparr>)"
    using c2 dump_raised(2,3) by (simp add: convert_dump_raised)
  ultimately show ?thesis using main_status [where prog = prog] by blast
next
  case (failure content diag)
  then have c2: "files w2 input_path = Some content" using assms by simp
  let ?pr = "[''Error parsing JSON after cleaning: '' @ diag]"
  have "convert_jsonc_to_json loads dumps input_path w1 =
      (Some (SystemExit 1), w1\<lparr>files := files w1 ++ Map.empty, stdout := stdout w1 @ ?pr\<rparr>)"
    using failure by (simp add: convert_failure)
  moreover have "convert_jsonc_to_json loads dumps input_path w2 =
      (Some (SystemExit 1), w2\<lparr>files := files w2 ++ Map.empty, stdout := stdout w2 @ ?pr\<rparr>)"
    using c2 failure(2) by (simp add: convert_failure)
  ultimately show ?thesis using main_status [where prog = prog] by blast
next
  case (raised content x)
  then have c2: "files w2 input_path = Some content" using assms by simp
  have "convert_jsonc_to_json loads dumps input_path w1 =
      (Some (Uncaught x), w1\<lparr>files := files w1 ++ Map.empty, stdout := stdout w1 @ []\<rparr>)"
    using raised by (simp add: convert_raised)
  moreover have "convert_jsonc_to_json loads dumps input_path w2 =
      (Some (Uncaught x), w2\<lparr>files := files w2 ++ Map.empty, stdout := stdout w2 @ []\<rparr>)"
    using c2 raised(2) by (simp add: convert_raised)
  ultimately show ?thesis using main_status [where prog = prog] by blast
qed

theorem conversion_deterministic_witness:
  \<open>files \<lparr>files = [''a.jsonc'' \<mapsto> ''[1,]'', ''notes.txt'' \<mapsto> ''x''], stdout = [''earlier'']\<rparr> ''a.jsonc''
     = files \<lparr>files = [''a.jsonc'' \<mapsto> ''[1,]''], stdout = []\<rparr> ''a.jsonc'' \<and>
   (\<exists>e printed written.
      convert_jsonc_to_json json_loads json_dump ''a.jsonc''
          \<lparr>files = [''a.jsonc'' \<mapsto> ''[1,]'', ''notes.txt'' \<mapsto> ''x''], stdout = [''earlier'']\<rparr>
        = (e, \<lparr>files = [''a.jsonc'' \<mapsto> ''[1,]'', ''notes.txt'' \<mapsto> ''x''] ++ written,
               stdout = [''earlier''] @ printed\<rparr>) \<and>
      convert_jsonc_to_json json_loads json_dump ''a.jsonc''
          \<lparr>files = [''a.jsonc'' \<mapsto> ''[1,]''], stdout = []\<rparr>
        = (e, \<lparr>files = [''a.jsonc'' \<mapsto> ''[1,]''] ++ written, stdout = [] @ printed\<rparr>))\<close>
proof -
  have agree:
    "files \<lparr>files = [''a.jsonc'' \<mapsto> ''[1,]'', ''notes.txt'' \<mapsto> ''x''], stdout = [''earlier'']\<rparr> ''a.jsonc''
       = files \<lparr>files = [''a.jsonc'' \<mapsto> ''[1,]''], stdout = []\<rparr> ''a.jsonc''"
    by simp
  show ?thesis
    using conversion_deterministic
      [OF agree, where loads = json_loads and dumps = json_dump
         and prog = "''remove-json-comments.py''"]
    by simp blast
qed







end
